theory Spec2Isabelle
  imports Main
begin

section \<open>Python strings\<close>

text \<open>
  A Python \<open>str\<close> is modelled as a \<open>string\<close> whose characters are the code points
  below 256; on these, \<open>str.lower\<close>, \<open>str.strip\<close>, \<open>str.replace\<close>, \<open>in\<close> and \<open>str.join\<close>
  are the functions below.
\<close>

definition nl :: string where
  "nl = [CHR 0x0A]"

definition lower_char :: "char \<Rightarrow> char" where
  "lower_char c =
     (let n = (of_char c :: nat)
      in if (65 \<le> n \<and> n \<le> 90) \<or> (192 \<le> n \<and> n \<le> 222 \<and> n \<noteq> 215)
         then char_of (n + 32) else c)"

definition lower :: "string \<Rightarrow> string" where
  "lower s = map lower_char s"

text \<open>\<open>s.replace(a, b)\<close> for one-character \<open>a\<close> and \<open>b\<close>.\<close>

definition replace :: "char \<Rightarrow> char \<Rightarrow> string \<Rightarrow> string" where
  "replace a b s = map (\<lambda>c. if c = a then b else c) s"

text \<open>\<open>kw in s\<close>: \<open>kw\<close> occurs in \<open>s\<close> as a contiguous substring.\<close>

fun contains :: "string \<Rightarrow> string \<Rightarrow> bool" where
  "contains kw [] = (kw = [])"
| "contains kw (c # cs) = (take (length kw) (c # cs) = kw \<or> contains kw cs)"

text \<open>The characters \<open>str.isspace\<close> accepts, and \<open>str.strip()\<close>.\<close>

definition is_space :: "char \<Rightarrow> bool" where
  "is_space c =
     (let n = (of_char c :: nat)
      in (9 \<le> n \<and> n \<le> 13) \<or> (28 \<le> n \<and> n \<le> 32) \<or> n = 133 \<or> n = 160)"

definition strip :: "string \<Rightarrow> string" where
  "strip s = rev (dropWhile is_space (rev (dropWhile is_space s)))"

fun join :: "string \<Rightarrow> string list \<Rightarrow> string" where
  "join sep [] = []"
| "join sep [x] = x"
| "join sep (x # y # ys) = x @ sep @ join sep (y # ys)"

text \<open>\<open>str(n)\<close> for a non-negative \<open>int\<close>: the decimal numeral.\<close>

definition digit_char :: "nat \<Rightarrow> char" where
  "digit_char d = ''0123456789'' ! d"

fun str_nat :: "nat \<Rightarrow> string" where
  "str_nat n = (if n < 10 then [digit_char n] else str_nat (n div 10) @ [digit_char (n mod 10)])"

declare str_nat.simps [simp del]


section \<open>Messages and course outlines\<close>

text \<open>
  The consumer's deserializer yields the decoded JSON object of a message. A dictionary
  is a record of optional fields (\<open>None\<close>: the key is absent), whose present values have
  the types of the inbound message format: \<open>title\<close> and \<open>category\<close> strings, \<open>modules\<close> and
  \<open>sections\<close> arrays of objects.
\<close>

record section_outline =
  section_title :: "string option"

record module_outline =
  module_title :: "string option"
  sections :: "section_outline list option"

record course_data =
  title :: "string option"
  category :: "string option"
  modules :: "module_outline list option"

record message =
  offset :: nat
  val :: course_data

datatype error =
    KeyError string
  | AttributeError string
  | GenerationFailure string
  | OSError string

text \<open>
  A value passed where the code expects a category: line 76 of the generator passes the
  result of an \<open>or\<close> of two \<open>in\<close> tests, a \<open>bool\<close>.
\<close>

datatype pyval = PyStr string | PyBool bool


section \<open>Collaborators and observable events\<close>

datatype prompt =
    CourseDescription string string
  | ModuleBody string string
  | ModuleBodyNoCode string string
  | ModuleCodeExamples string string

datatype log_msg =
    Received nat
  | InvalidFormat
  | Generating string
  | ErrorGenerating error
  | ErrorProcessing error
  | Saved string
  | ErrorSaving error
  | Processed string

datatype event =
    Log log_msg
  | LLMCall prompt
  | WriteFile string string
  | Commit nat

text \<open>
  The text-generation service and the file system are parameters. Their answer may depend
  on the moment of the call, which is the number of events observed so far.
  \<open>llm_init\<close> is the construction of the chat model, \<open>llm_run\<close> is \<open>chain.run\<close>,
  \<open>fs_write\<close> is \<open>os.makedirs\<close> followed by opening and writing the file
  (\<open>None\<close>: no exception).
\<close>

record env =
  llm_init :: "nat \<Rightarrow> error option"
  llm_run :: "nat \<Rightarrow> prompt \<Rightarrow> error + string"
  fs_write :: "nat \<Rightarrow> string \<Rightarrow> string \<Rightarrow> error option"

type_synonym trace = "event list"


section \<open>The generator\<close>

subsection \<open>Templates\<close>

definition MODULE_TEMPLATE :: "string \<Rightarrow> string \<Rightarrow> string" where
  "MODULE_TEMPLATE module_title' module_content =
     nl @ ''## '' @ module_title' @ nl @ nl @ module_content @ nl"

definition SOFTWARE_MODULE_TEMPLATE :: "string \<Rightarrow> string \<Rightarrow> string \<Rightarrow> string" where
  "SOFTWARE_MODULE_TEMPLATE module_title' module_content code_examples =
     nl @ ''## '' @ module_title' @ nl @ nl @ module_content @ nl @ nl
       @ ''### Code Examples'' @ nl @ nl @ code_examples @ nl"

definition COURSE_TEMPLATE :: "string \<Rightarrow> string \<Rightarrow> string \<Rightarrow> string \<Rightarrow> string" where
  "COURSE_TEMPLATE course_title course_description table_of_contents modules_content =
     nl @ ''# '' @ course_title @ nl @ nl @ course_description @ nl @ nl
       @ ''## Table of Contents'' @ nl @ table_of_contents @ nl @ nl @ modules_content @ nl"

subsection \<open>Classifier\<close>

definition software_keywords :: "string list" where
  "software_keywords =
     [''software'', ''programming'', ''coding'', ''development'', ''javascript'',
      ''python'', ''java'', ''c++'', ''web'', ''app'', ''database'', ''frontend'',
      ''backend'', ''fullstack'', ''data science'', ''machine learning'']"

text \<open>\<open>category.lower()\<close>: only a \<open>str\<close> has the method.\<close>

fun py_lower :: "pyval \<Rightarrow> error + string" where
  "py_lower (PyStr s) = Inr (lower s)"
| "py_lower (PyBool b) = Inl (AttributeError ''lower'')"

text \<open>
  \<open>any(keyword in category.lower() for keyword in software_keywords)\<close>: the generator
  expression evaluates \<open>category.lower()\<close> once per keyword, and \<open>any\<close> stops at the first
  hit.
\<close>

fun any_keyword :: "pyval \<Rightarrow> string list \<Rightarrow> error + bool" where
  "any_keyword c [] = Inr False"
| "any_keyword c (keyword # ks) =
     (case py_lower c of
        Inl e \<Rightarrow> Inl e
      | Inr s \<Rightarrow> if contains keyword s then Inr True else any_keyword c ks)"

definition is_software_course :: "pyval \<Rightarrow> error + bool" where
  "is_software_course c = any_keyword c software_keywords"

subsection \<open>Calls to the text-generation service\<close>

definition chain_run :: "env \<Rightarrow> prompt \<Rightarrow> trace \<Rightarrow> (error + string) \<times> trace" where
  "chain_run E p tr = (llm_run E (length tr) p, tr @ [LLMCall p])"

text \<open>\<open>[module['title'] for module in modules]\<close> and the same over sections.\<close>

fun module_titles :: "module_outline list \<Rightarrow> error + string list" where
  "module_titles [] = Inr []"
| "module_titles (m # ms) =
     (case module_title m of
        None \<Rightarrow> Inl (KeyError ''title'')
      | Some t \<Rightarrow> (case module_titles ms of Inl e \<Rightarrow> Inl e | Inr ts \<Rightarrow> Inr (t # ts)))"

fun section_titles :: "section_outline list \<Rightarrow> error + string list" where
  "section_titles [] = Inr []"
| "section_titles (s # ss) =
     (case section_title s of
        None \<Rightarrow> Inl (KeyError ''title'')
      | Some t \<Rightarrow> (case section_titles ss of Inl e \<Rightarrow> Inl e | Inr ts \<Rightarrow> Inr (t # ts)))"

subsection \<open>Course description\<close>

definition generate_course_description ::
  "env \<Rightarrow> course_data \<Rightarrow> trace \<Rightarrow> (error + string) \<times> trace" where
  "generate_course_description E cd tr =
     (case modules cd of
        None \<Rightarrow> (Inl (KeyError ''modules''), tr)
      | Some ms \<Rightarrow>
          (case module_titles ms of
             Inl e \<Rightarrow> (Inl e, tr)
           | Inr ts \<Rightarrow>
               (case title cd of
                  None \<Rightarrow> (Inl (KeyError ''title''), tr)
                | Some t \<Rightarrow>
                    (case chain_run E (CourseDescription t (join '', '' ts)) tr of
                       (Inl e, tr') \<Rightarrow> (Inl e, tr')
                     | (Inr description, tr') \<Rightarrow> (Inr (strip description), tr')))))"

subsection \<open>Table of contents\<close>

definition anchor :: "string \<Rightarrow> string" where
  "anchor t = replace CHR '' '' CHR ''-'' (lower t)"

definition module_entry :: "nat \<Rightarrow> string \<Rightarrow> string" where
  "module_entry i t = str_nat i @ ''. ['' @ t @ ''](#'' @ anchor t @ '')''"

definition section_entry :: "nat \<Rightarrow> nat \<Rightarrow> string \<Rightarrow> string" where
  "section_entry i j t =
     ''   '' @ str_nat i @ ''.'' @ str_nat j @ ''. ['' @ t @ ''](#'' @ anchor t @ '')''"

text \<open>The inner loop over \<open>enumerate(module['sections'], 1)\<close>, appending to \<open>toc\<close>.\<close>

fun toc_sections ::
  "nat \<Rightarrow> nat \<Rightarrow> section_outline list \<Rightarrow> string list \<Rightarrow> error + string list" where
  "toc_sections i j [] toc = Inr toc"
| "toc_sections i j (s # ss) toc =
     (case section_title s of
        None \<Rightarrow> Inl (KeyError ''title'')
      | Some t \<Rightarrow> toc_sections i (Suc j) ss (toc @ [section_entry i j t]))"

text \<open>The outer loop over \<open>enumerate(modules, 1)\<close>.\<close>

fun toc_modules :: "nat \<Rightarrow> module_outline list \<Rightarrow> string list \<Rightarrow> error + string list" where
  "toc_modules i [] toc = Inr toc"
| "toc_modules i (m # ms) toc =
     (case module_title m of
        None \<Rightarrow> Inl (KeyError ''title'')
      | Some t \<Rightarrow>
          (case sections m of
             None \<Rightarrow> toc_modules (Suc i) ms (toc @ [module_entry i t])
           | Some ss \<Rightarrow>
               (case toc_sections i 1 ss (toc @ [module_entry i t]) of
                  Inl e \<Rightarrow> Inl e
                | Inr toc' \<Rightarrow> toc_modules (Suc i) ms toc')))"

definition generate_table_of_contents :: "module_outline list \<Rightarrow> error + string" where
  "generate_table_of_contents ms =
     (case toc_modules 1 ms [] of Inl e \<Rightarrow> Inl e | Inr toc \<Rightarrow> Inr (join nl toc))"

subsection \<open>Module content\<close>

text \<open>
  The section titles of a module (\<open>[]\<close> without the key \<open>sections\<close>) and the \<open>sections\<close>
  argument of the prompt.
\<close>

definition module_section_titles :: "module_outline \<Rightarrow> error + string list" where
  "module_section_titles m = (case sections m of None \<Rightarrow> Inr [] | Some ss \<Rightarrow> section_titles ss)"

definition sections_arg :: "string list \<Rightarrow> string" where
  "sections_arg ts = (if ts \<noteq> [] then join '', '' ts else ''No specific sections'')"

definition generate_standard_module ::
  "env \<Rightarrow> module_outline \<Rightarrow> trace \<Rightarrow> (error + string) \<times> trace" where
  "generate_standard_module E m tr =
     (case module_section_titles m of
        Inl e \<Rightarrow> (Inl e, tr)
      | Inr ts \<Rightarrow>
          (case module_title m of
             None \<Rightarrow> (Inl (KeyError ''title''), tr)
           | Some t \<Rightarrow>
               (case chain_run E (ModuleBody t (sections_arg ts)) tr of
                  (Inl e, tr') \<Rightarrow> (Inl e, tr')
                | (Inr content, tr') \<Rightarrow> (Inr (MODULE_TEMPLATE t (strip content)), tr'))))"

definition generate_software_module ::
  "env \<Rightarrow> module_outline \<Rightarrow> trace \<Rightarrow> (error + string) \<times> trace" where
  "generate_software_module E m tr =
     (case module_section_titles m of
        Inl e \<Rightarrow> (Inl e, tr)
      | Inr ts \<Rightarrow>
          (case module_title m of
             None \<Rightarrow> (Inl (KeyError ''title''), tr)
           | Some t \<Rightarrow>
               (case chain_run E (ModuleBodyNoCode t (sections_arg ts)) tr of
                  (Inl e, tr') \<Rightarrow> (Inl e, tr')
                | (Inr content, tr') \<Rightarrow>
                    (case chain_run E (ModuleCodeExamples t (sections_arg ts)) tr' of
                       (Inl e, tr'') \<Rightarrow> (Inl e, tr'')
                     | (Inr code_examples, tr'') \<Rightarrow>
                         (Inr (SOFTWARE_MODULE_TEMPLATE t (strip content) (strip code_examples)),
                          tr'')))))"

definition generate_module_content ::
  "env \<Rightarrow> module_outline \<Rightarrow> bool \<Rightarrow> trace \<Rightarrow> (error + string) \<times> trace" where
  "generate_module_content E m is_software tr =
     (if is_software then generate_software_module E m tr else generate_standard_module E m tr)"

subsection \<open>The whole course\<close>

text \<open>\<open>course_data.get('category', '')\<close>.\<close>

definition get_category :: "course_data \<Rightarrow> string" where
  "get_category cd = (case category cd of None \<Rightarrow> [] | Some c \<Rightarrow> c)"

text \<open>
  The loop of lines 75 to 77. The third argument of \<open>generate_module_content\<close> is
  evaluated before the call: \<open>is_software_course\<close> applied to the boolean
  \<open>'software' in c or 'programming' in c\<close>, where \<open>c\<close> is the lowercased category.
\<close>

fun modules_loop ::
  "env \<Rightarrow> course_data \<Rightarrow> module_outline list \<Rightarrow> string list \<Rightarrow> trace
     \<Rightarrow> (error + string list) \<times> trace" where
  "modules_loop E cd [] modules_content tr = (Inr modules_content, tr)"
| "modules_loop E cd (m # ms) modules_content tr =
     (case is_software_course
             (PyBool (contains ''software'' (lower (get_category cd))
                      \<or> contains ''programming'' (lower (get_category cd)))) of
        Inl e \<Rightarrow> (Inl e, tr)
      | Inr is_software \<Rightarrow>
          (case generate_module_content E m is_software tr of
             (Inl e, tr') \<Rightarrow> (Inl e, tr')
           | (Inr module_content, tr') \<Rightarrow>
               modules_loop E cd ms (modules_content @ [module_content]) tr'))"

text \<open>The body of the \<open>try\<close> block of \<open>generate_course_content\<close>.\<close>

definition generate_course_content_try ::
  "env \<Rightarrow> course_data \<Rightarrow> trace \<Rightarrow> (error + string) \<times> trace" where
  "generate_course_content_try E cd tr =
     (case title cd of
        None \<Rightarrow> (Inl (KeyError ''title''), tr)
      | Some t \<Rightarrow>
          (case llm_init E (Suc (length tr)) of
             Some e \<Rightarrow> (Inl e, tr @ [Log (Generating t)])
           | None \<Rightarrow>
               (case generate_course_description E cd (tr @ [Log (Generating t)]) of
                  (Inl e, tr') \<Rightarrow> (Inl e, tr')
                | (Inr course_description, tr') \<Rightarrow>
                    (case modules cd of
                       None \<Rightarrow> (Inl (KeyError ''modules''), tr')
                     | Some ms \<Rightarrow>
                         (case generate_table_of_contents ms of
                            Inl e \<Rightarrow> (Inl e, tr')
                          | Inr toc \<Rightarrow>
                              (case modules_loop E cd ms [] tr' of
                                 (Inl e, tr'') \<Rightarrow> (Inl e, tr'')
                               | (Inr modules_content, tr'') \<Rightarrow>
                                   (Inr (COURSE_TEMPLATE t course_description toc
                                           (join (nl @ nl) modules_content)),
                                    tr'')))))))"

text \<open>The \<open>except\<close> clause logs the exception and raises it again.\<close>

definition generate_course_content ::
  "env \<Rightarrow> course_data \<Rightarrow> trace \<Rightarrow> (error + string) \<times> trace" where
  "generate_course_content E cd tr =
     (case generate_course_content_try E cd tr of
        (Inl e, tr') \<Rightarrow> (Inl e, tr' @ [Log (ErrorGenerating e)])
      | (Inr complete_course, tr') \<Rightarrow> (Inr complete_course, tr'))"


section \<open>The consumer\<close>

text \<open>
  \<open>save_course_content\<close>: the sanitized file name, the path under the output directory,
  and the write. Every exception of the body is caught and logged, so the function
  returns normally in both cases.
\<close>

definition filename_of :: "string \<Rightarrow> string" where
  "filename_of t =
     replace CHR 0x5C CHR ''_'' (replace CHR ''/'' CHR ''_'' (replace CHR '' '' CHR ''_'' (lower t)))"

definition filepath_of :: "string \<Rightarrow> string" where
  "filepath_of t = ''generated_courses/'' @ filename_of t @ ''.md''"

definition save_course_content :: "env \<Rightarrow> string \<Rightarrow> string \<Rightarrow> trace \<Rightarrow> trace" where
  "save_course_content E t content tr =
     (case fs_write E (length tr) (filepath_of t) content of
        None \<Rightarrow> tr @ [WriteFile (filepath_of t) content, Log (Saved (filepath_of t))]
      | Some e \<Rightarrow> tr @ [Log (ErrorSaving e)])"

text \<open>\<open>key in course_data\<close> for the keys of the message format.\<close>

definition has_key :: "course_data \<Rightarrow> string \<Rightarrow> bool" where
  "has_key cd key =
     ((key = ''title'' \<and> title cd \<noteq> None)
      \<or> (key = ''category'' \<and> category cd \<noteq> None)
      \<or> (key = ''modules'' \<and> modules cd \<noteq> None))"

text \<open>
  \<open>process_message\<close>: the message is logged, validated, generated and saved; an exception
  of the generator is caught and logged.
\<close>

definition process_message :: "env \<Rightarrow> message \<Rightarrow> trace \<Rightarrow> trace" where
  "process_message E msg tr =
     (if \<not> list_all (has_key (val msg)) [''title'', ''modules'']
      then tr @ [Log (Received (offset msg)), Log InvalidFormat]
      else
        (case generate_course_content E (val msg) (tr @ [Log (Received (offset msg))]) of
           (Inl e, tr') \<Rightarrow> tr' @ [Log (ErrorProcessing e)]
         | (Inr course_content, tr') \<Rightarrow>
             (case title (val msg) of
                None \<Rightarrow> tr' @ [Log (ErrorProcessing (KeyError ''title''))]
              | Some t \<Rightarrow> save_course_content E t course_content tr' @ [Log (Processed t)])))"

text \<open>
  The loop of \<open>main\<close> (lines 137 to 141) over the messages the consumer yields:
  process the message, then commit. The broker is taken to deliver the messages and to
  accept every commit; the trace after a list of messages is the behaviour of the loop up
  to the moment the consumer is stopped.
\<close>

fun main_loop :: "env \<Rightarrow> message list \<Rightarrow> trace \<Rightarrow> trace" where
  "main_loop E [] tr = tr"
| "main_loop E (msg # msgs) tr =
     main_loop E msgs (process_message E msg tr @ [Commit (offset msg)])"


section \<open>Reference definitions for the properties\<close>

subsection \<open>The commit protocol of the consumer loop\<close>

text \<open>
  The phases of one message: \<open>Idle\<close> between messages, \<open>Processing\<close> from the moment the
  message is received, \<open>Persisted\<close> once the persistence step has written the file or
  has failed, \<open>Determined\<close> once the outcome is known (invalid format: skipped; error while
  processing: failed; processed: success). Only a determined message is committed, and
  the success of a message is only determined after its persistence step.
\<close>

datatype phase = Idle | Processing nat | Persisted nat | Determined nat

fun protocol_step :: "phase \<Rightarrow> event \<Rightarrow> phase option" where
  "protocol_step Idle (Log (Received k)) = Some (Processing k)"
| "protocol_step (Processing k) (Log InvalidFormat) = Some (Determined k)"
| "protocol_step (Processing k) (Log (ErrorProcessing e)) = Some (Determined k)"
| "protocol_step (Processing k) (Log (Generating t)) = Some (Processing k)"
| "protocol_step (Processing k) (Log (ErrorGenerating e)) = Some (Processing k)"
| "protocol_step (Processing k) (LLMCall p) = Some (Processing k)"
| "protocol_step (Processing k) (WriteFile path content) = Some (Persisted k)"
| "protocol_step (Processing k) (Log (ErrorSaving e)) = Some (Persisted k)"
| "protocol_step (Persisted k) (Log (Saved path)) = Some (Persisted k)"
| "protocol_step (Persisted k) (Log (Processed t)) = Some (Determined k)"
| "protocol_step (Determined k) (Commit k') = (if k = k' then Some Idle else None)"
| "protocol_step _ _ = None"

fun protocol_run :: "phase \<Rightarrow> event list \<Rightarrow> phase option" where
  "protocol_run ph [] = Some ph"
| "protocol_run ph (ev # evs) =
     (case protocol_step ph ev of None \<Rightarrow> None | Some ph' \<Rightarrow> protocol_run ph' evs)"

text \<open>The events of a call of the generator.\<close>

fun generation_event :: "event \<Rightarrow> bool" where
  "generation_event (Log (Generating t)) = True"
| "generation_event (Log (ErrorGenerating e)) = True"
| "generation_event (LLMCall p) = True"
| "generation_event _ = False"

subsection \<open>The table of contents, line by line\<close>

text \<open>
  A module with its title and, when it has the key \<open>sections\<close>, the titles of its sections;
  \<open>module_dict\<close> is the dictionary of such a module.
\<close>

type_synonym titled_module = "string \<times> string list option"

definition section_dict :: "string \<Rightarrow> section_outline" where
  "section_dict t = \<lparr>section_title = Some t\<rparr>"

definition module_dict :: "titled_module \<Rightarrow> module_outline" where
  "module_dict m = \<lparr>module_title = Some (fst m), sections = map_option (map section_dict) (snd m)\<rparr>"

definition titled_sections :: "titled_module \<Rightarrow> string list" where
  "titled_sections m = (case snd m of None \<Rightarrow> [] | Some ss \<Rightarrow> ss)"

text \<open>
  The lines of module number \<open>i\<close>: its own line, then one line per section, numbered
  from 1; and the lines of the modules numbered from \<open>i\<close> on.
\<close>

definition module_lines :: "nat \<Rightarrow> titled_module \<Rightarrow> string list" where
  "module_lines i m =
     module_entry i (fst m)
       # map (\<lambda>(j, t). section_entry i j t) (enumerate 1 (titled_sections m))"

definition toc_lines :: "nat \<Rightarrow> titled_module list \<Rightarrow> string list" where
  "toc_lines i ms = concat (map (\<lambda>(k, m). module_lines k m) (enumerate i ms))"

subsection \<open>File names without path separators\<close>

text \<open>
  The name of the specification: lowercased, spaces replaced by underscores, path
  separators removed.
\<close>

definition stripped_filename :: "string \<Rightarrow> string" where
  "stripped_filename t =
     filter (\<lambda>c. c \<noteq> CHR ''/'' \<and> c \<noteq> CHR 0x5C) (replace CHR '' '' CHR ''_'' (lower t))"

subsection \<open>Example collaborators and messages\<close>

text \<open>
  A text-generation service that answers every call with the same text and a file system
  that accepts every write; the same with a service that fails every call.
\<close>

definition reliable_env :: "string \<Rightarrow> env" where
  "reliable_env reply =
     \<lparr>llm_init = (\<lambda>n. None), llm_run = (\<lambda>n p. Inr reply), fs_write = (\<lambda>n path content. None)\<rparr>"

definition failing_llm_env :: env where
  "failing_llm_env =
     \<lparr>llm_init = (\<lambda>n. None), llm_run = (\<lambda>n p. Inl (GenerationFailure ''timeout'')),
      fs_write = (\<lambda>n path content. None)\<rparr>"

text \<open>The outline of the specification's scenario, and an outline without modules.\<close>

definition go_course :: course_data where
  "go_course =
     \<lparr>title = Some ''Intro to Go'', category = Some ''programming'',
      modules = Some [\<lparr>module_title = Some ''Basics'',
                       sections = Some [\<lparr>section_title = Some ''Vars''\<rparr>,
                                        \<lparr>section_title = Some ''Loops''\<rparr>]\<rparr>]\<rparr>"

definition empty_course :: course_data where
  "empty_course = \<lparr>title = Some ''Quiet Hours'', category = None, modules = Some []\<rparr>"

definition untitled_payload :: course_data where
  "untitled_payload = \<lparr>title = None, category = Some ''python'', modules = Some []\<rparr>"

definition payload_without_modules :: course_data where
  "payload_without_modules = \<lparr>title = Some ''Intro to Go'', category = None, modules = None\<rparr>"

subsection \<open>Composed documents and their headings\<close>

text \<open>
  A module artifact is a title, a body and, for the variant with code, the code examples;
  its rendering is the template of its variant. \<open>compose_course\<close> is the assembly of lines 80
  to 85 of the generator for the renderings of a list of artifacts.
\<close>

type_synonym module_artifact = "string \<times> string \<times> string option"

fun render_module :: "module_artifact \<Rightarrow> string" where
  "render_module (t, body, None) = MODULE_TEMPLATE t body"
| "render_module (t, body, Some code) = SOFTWARE_MODULE_TEMPLATE t body code"

definition compose_course :: "string \<Rightarrow> string \<Rightarrow> string \<Rightarrow> module_artifact list \<Rightarrow> string" where
  "compose_course t description toc arts =
     COURSE_TEMPLATE t description toc (join (nl @ nl) (map render_module arts))"

text \<open>
  Reading the headings back: the lines of a document (split at every newline) and the
  texts of its second-level headings, the lines that start with \<open>## \<close>.
\<close>

fun split_lines :: "string \<Rightarrow> string list" where
  "split_lines [] = [[]]"
| "split_lines (c # cs) =
     (if c = CHR 0x0A then [] # split_lines cs
      else (case split_lines cs of [] \<Rightarrow> [[c]] | l # ls \<Rightarrow> (c # l) # ls))"

definition level2_headings :: "string \<Rightarrow> string list" where
  "level2_headings doc = map (drop 3) (filter (\<lambda>l. take 3 l = ''## '') (split_lines doc))"

text \<open>
  Two courses for the counterexample to the recovery of module titles: the description of
  the first and the body of the second each contain the text of a table of contents and
  of a module heading.
\<close>

definition nested_description :: string where
  "nested_description =
     ''d'' @ nl @ nl @ ''## Table of Contents'' @ nl @ ''1. [a](#a)'' @ nl @ nl @ nl @ ''## a''
       @ nl @ nl @ ''x''"

definition nested_body :: string where
  "nested_body =
     ''x'' @ nl @ nl @ ''## Table of Contents'' @ nl @ ''1. [M](#m)'' @ nl @ nl @ nl @ ''## M''
       @ nl @ nl @ ''y''"

text \<open>A module whose title and section titles are free of newlines.\<close>

definition newline_free :: "titled_module \<Rightarrow> bool" where
  "newline_free m =
     (CHR 0x0A \<notin> set (fst m) \<and> list_all (\<lambda>t. CHR 0x0A \<notin> set t) (titled_sections m))"


section \<open>Properties\<close>

subsection \<open>Strings\<close>

lemma contains_iff: "contains kw s \<longleftrightarrow> (\<exists>ps ss. s = ps @ kw @ ss)"
proof (induction s)
  case Nil
  then show ?case by auto
next
  case (Cons c cs)
  show ?case
  proof
    assume "contains kw (c # cs)"
    then consider "take (length kw) (c # cs) = kw" | "contains kw cs" by auto
    then show "\<exists>ps ss. c # cs = ps @ kw @ ss"
    proof cases
      case 1
      then have "c # cs = [] @ kw @ drop (length kw) (c # cs)"
        by (metis append_Nil append_take_drop_id)
      then show ?thesis by blast
    next
      case 2
      then obtain ps ss where "cs = ps @ kw @ ss" using Cons.IH by blast
      then have "c # cs = (c # ps) @ kw @ ss" by simp
      then show ?thesis by blast
    qed
  next
    assume "\<exists>ps ss. c # cs = ps @ kw @ ss"
    then obtain ps ss where eq: "c # cs = ps @ kw @ ss" by blast
    show "contains kw (c # cs)"
    proof (cases ps)
      case Nil
      then have "take (length kw) (c # cs) = kw"
        using eq by (metis append_Nil append_eq_conv_conj)
      then show ?thesis by simp
    next
      case (Cons p ps')
      then have "cs = ps' @ kw @ ss" using eq by simp
      then have "contains kw cs" using Cons.IH by blast
      then show ?thesis by simp
    qed
  qed
qed

lemmas lower_eval = lower_def lower_char_def char_of_def bit_0

subsection \<open>The classifier\<close>

lemma any_keyword_str:
  "any_keyword (PyStr c) ks = Inr (\<exists>kw \<in> set ks. contains kw (lower c))"
  by (induction ks) auto

lemma is_software_course_str:
  "is_software_course (PyStr c) = Inr (\<exists>kw \<in> set software_keywords. contains kw (lower c))"
  by (simp add: is_software_course_def any_keyword_str)

lemma History_standard: "is_software_course (PyStr ''History'') = Inr False"
proof -
  have "lower ''History'' = ''history''" by (simp add: lower_eval)
  then show ?thesis by (simp add: is_software_course_def software_keywords_def)
qed

lemma Biosoftware_code: "is_software_course (PyStr ''Biosoftware'') = Inr True"
proof -
  have "lower ''Biosoftware'' = ''biosoftware''" by (simp add: lower_eval)
  then show ?thesis by (simp add: is_software_course_def software_keywords_def)
qed

text \<open>
  Claim C5. On every category string \<open>is_software_course\<close> returns a boolean, never an
  error, and the boolean is \<open>True\<close> (the code-annotated variant) exactly when some keyword of
  the fixed list is a substring of the lowercased category. The list contains "software",
  "programming", "python", "web", "database" and "machine learning". Two categories with
  the same lowercasing are classified alike; every category whose lowercasing contains
  "python" is code-annotated; "History" is standard and "Biosoftware" is code-annotated.
\<close>

theorem is_software_course_classifies:
  "is_software_course (PyStr c)
     = Inr (\<exists>kw \<in> set software_keywords. \<exists>ps ss. lower c = ps @ kw @ ss)
   \<and> set [''software'', ''programming'', ''python'', ''web'', ''database'', ''machine learning'']
       \<subseteq> set software_keywords
   \<and> (lower c = lower c' \<longrightarrow> is_software_course (PyStr c) = is_software_course (PyStr c'))
   \<and> ((\<exists>ps ss. lower c = ps @ ''python'' @ ss) \<longrightarrow> is_software_course (PyStr c) = Inr True)
   \<and> is_software_course (PyStr ''History'') = Inr False
   \<and> is_software_course (PyStr ''Biosoftware'') = Inr True"
proof -
  have a: "is_software_course (PyStr c)
     = Inr (\<exists>kw \<in> set software_keywords. \<exists>ps ss. lower c = ps @ kw @ ss)"
    by (simp add: is_software_course_str contains_iff)
  have b: "set [''software'', ''programming'', ''python'', ''web'', ''database'',
                ''machine learning''] \<subseteq> set software_keywords"
    by (simp add: software_keywords_def)
  have c: "lower c = lower c' \<longrightarrow> is_software_course (PyStr c) = is_software_course (PyStr c')"
    by (simp add: is_software_course_str)
  have d: "(\<exists>ps ss. lower c = ps @ ''python'' @ ss) \<longrightarrow> is_software_course (PyStr c) = Inr True"
  proof
    assume "\<exists>ps ss. lower c = ps @ ''python'' @ ss"
    then have "contains ''python'' (lower c)" by (simp only: contains_iff)
    moreover have "''python'' \<in> set software_keywords" by (simp add: software_keywords_def)
    ultimately show "is_software_course (PyStr c) = Inr True"
      unfolding is_software_course_str by blast
  qed
  show ?thesis using a b c d History_standard Biosoftware_code by blast
qed

theorem is_software_course_classifies_witness:
  "lower ''Learn PYTHON 3'' = lower ''learn Python 3''
   \<and> lower ''Learn PYTHON 3'' = ''learn '' @ ''python'' @ '' 3''
   \<and> is_software_course (PyStr ''Learn PYTHON 3'') = Inr True
   \<and> is_software_course (PyStr ''learn Python 3'') = Inr True"
proof -
  have h1: "lower ''Learn PYTHON 3'' = lower ''learn Python 3''"
    by (simp add: lower_eval)
  have h2: "lower ''Learn PYTHON 3'' = ''learn '' @ ''python'' @ '' 3''"
    by (simp add: lower_eval)
  have h3: "\<exists>ps ss. lower ''Learn PYTHON 3'' = ps @ ''python'' @ ss"
    using h2 by blast
  from is_software_course_classifies [of "''Learn PYTHON 3''" "''learn Python 3''"] h1 h3
  have "is_software_course (PyStr ''Learn PYTHON 3'') = Inr True"
    and "is_software_course (PyStr ''Learn PYTHON 3'')
           = is_software_course (PyStr ''learn Python 3'')"
    by blast+
  then show ?thesis using h1 h2 by simp
qed

subsection \<open>The table of contents\<close>

lemma toc_sections_dict:
  "toc_sections i j (map section_dict ss) toc
     = Inr (toc @ map (\<lambda>(j, t). section_entry i j t) (enumerate j ss))"
  by (induction ss arbitrary: j toc) (simp_all add: section_dict_def)

lemma toc_lines_Cons: "toc_lines i (m # ms) = module_lines i m @ toc_lines (Suc i) ms"
  by (simp add: toc_lines_def)

lemma toc_modules_dict:
  "toc_modules i (map module_dict ms) toc = Inr (toc @ toc_lines i ms)"
proof (induction ms arbitrary: i toc)
  case Nil
  then show ?case by (simp add: toc_lines_def)
next
  case (Cons m ms)
  show ?case
  proof (cases "snd m")
    case None
    then show ?thesis
      using Cons.IH
      by (simp add: module_dict_def toc_lines_Cons module_lines_def titled_sections_def)
  next
    case (Some ss)
    then show ?thesis
      using Cons.IH
      by (simp add: module_dict_def toc_lines_Cons module_lines_def titled_sections_def
            toc_sections_dict)
  qed
qed

lemma str_nat_small: "str_nat (Suc 0) = ''1''" "str_nat (Suc (Suc 0)) = ''2''"
  by (simp_all add: str_nat.simps digit_char_def)

text \<open>
  Claim C7. For every list of modules that have a title, with or without sections that
  have a title, \<open>generate_table_of_contents\<close> returns the lines of the modules in outline
  order joined by newlines: module number \<open>i\<close> (from 1) contributes the line
  \<open>i. [title](#anchor)\<close>, directly followed by one line \<open>   i.j. [title](#anchor)\<close> per section
  \<open>j\<close> (from 1, in section order), where the anchor is the title lowercased with each space
  replaced by a hyphen and nothing else changed. (A module or section without the key
  \<open>title\<close> raises \<open>KeyError\<close>.)
\<close>

theorem generate_table_of_contents_lines:
  "generate_table_of_contents (map module_dict ms) = Inr (join nl (toc_lines 1 ms))
   \<and> toc_lines i [] = []
   \<and> toc_lines i (m # ms) = module_lines i m @ toc_lines (Suc i) ms
   \<and> module_lines i m
        = (str_nat i @ ''. ['' @ fst m @ ''](#'' @ replace CHR '' '' CHR ''-'' (lower (fst m)) @ '')'')
          # map (\<lambda>(j, t). ''   '' @ str_nat i @ ''.'' @ str_nat j @ ''. ['' @ t @ ''](#''
                            @ replace CHR '' '' CHR ''-'' (lower t) @ '')'')
              (enumerate 1 (titled_sections m))"
proof -
  have a: "generate_table_of_contents (map module_dict ms) = Inr (join nl (toc_lines 1 ms))"
    by (simp add: generate_table_of_contents_def toc_modules_dict)
  have b: "toc_lines i [] = []" by (simp add: toc_lines_def)
  have c: "module_lines i m
        = (str_nat i @ ''. ['' @ fst m @ ''](#'' @ replace CHR '' '' CHR ''-'' (lower (fst m)) @ '')'')
          # map (\<lambda>(j, t). ''   '' @ str_nat i @ ''.'' @ str_nat j @ ''. ['' @ t @ ''](#''
                            @ replace CHR '' '' CHR ''-'' (lower t) @ '')'')
              (enumerate 1 (titled_sections m))"
    by (simp add: module_lines_def module_entry_def section_entry_def anchor_def)
  show ?thesis using a b c toc_lines_Cons by blast
qed

text \<open>The outline of the specification's scenario: one module "Basics" with two sections.\<close>

theorem generate_table_of_contents_lines_witness:
  "generate_table_of_contents
     [\<lparr>module_title = Some ''Basics'',
       sections = Some [\<lparr>section_title = Some ''Vars''\<rparr>, \<lparr>section_title = Some ''Loops''\<rparr>]\<rparr>]
   = Inr (''1. [Basics](#basics)'' @ nl @ ''   1.1. [Vars](#vars)'' @ nl @ ''   1.2. [Loops](#loops)'')"
proof -
  have l: "lower ''Basics'' = ''basics''" "lower ''Vars'' = ''vars''" "lower ''Loops'' = ''loops''"
    by (simp_all add: lower_eval)
  have d: "map module_dict [(''Basics'', Some [''Vars'', ''Loops''])]
             = [\<lparr>module_title = Some ''Basics'',
                 sections = Some [\<lparr>section_title = Some ''Vars''\<rparr>,
                                  \<lparr>section_title = Some ''Loops''\<rparr>]\<rparr>]"
    by (simp add: module_dict_def section_dict_def)
  have t: "join nl (toc_lines 1 [(''Basics'', Some [''Vars'', ''Loops''])])
             = ''1. [Basics](#basics)'' @ nl @ ''   1.1. [Vars](#vars)'' @ nl
                 @ ''   1.2. [Loops](#loops)''"
    by (simp add: toc_lines_def module_lines_def titled_sections_def
          module_entry_def section_entry_def anchor_def replace_def l str_nat_small)
  from generate_table_of_contents_lines
      [of "[(''Basics'', Some [''Vars'', ''Loops''])]" 1 "(''Basics'', Some [''Vars'', ''Loops''])"]
  have "generate_table_of_contents (map module_dict [(''Basics'', Some [''Vars'', ''Loops''])])
          = Inr (join nl (toc_lines 1 [(''Basics'', Some [''Vars'', ''Loops''])]))"
    by blast
  then show ?thesis by (simp only: d t)
qed

subsection \<open>Events of the generator\<close>

text \<open>
  The classifier raises on a boolean, so the loop over the modules raises at its first
  module, before any module content is requested.
\<close>

lemma is_software_course_bool: "is_software_course (PyBool b) = Inl (AttributeError ''lower'')"
  by (simp add: is_software_course_def software_keywords_def)

lemma modules_loop_Cons:
  "modules_loop E cd (m # ms) acc tr = (Inl (AttributeError ''lower''), tr)"
  by (simp add: is_software_course_bool)

lemma modules_loop_trace: "snd (modules_loop E cd ms acc tr) = tr"
  by (cases ms) (simp_all add: is_software_course_bool)

lemma chain_run_trace: "snd (chain_run E p tr) = tr @ [LLMCall p]"
  by (simp add: chain_run_def)

lemma generate_course_description_trace:
  "\<exists>evs. snd (generate_course_description E cd tr) = tr @ evs \<and> list_all generation_event evs"
  by (auto simp: generate_course_description_def chain_run_def
           split: option.splits sum.splits prod.splits)

lemma generate_standard_module_trace:
  "\<exists>evs. snd (generate_standard_module E m tr) = tr @ evs \<and> list_all generation_event evs"
  by (auto simp: generate_standard_module_def chain_run_def
           split: option.splits sum.splits prod.splits)

lemma generate_software_module_trace:
  "\<exists>evs. snd (generate_software_module E m tr) = tr @ evs \<and> list_all generation_event evs"
  by (auto simp: generate_software_module_def chain_run_def
           split: option.splits sum.splits prod.splits)

lemma generate_course_content_try_trace:
  "\<exists>evs. snd (generate_course_content_try E cd tr) = tr @ evs \<and> list_all generation_event evs
         \<and> (evs = [] \<longrightarrow> (\<exists>e. fst (generate_course_content_try E cd tr) = Inl e))"
proof (cases "title cd")
  case None
  then show ?thesis by (simp add: generate_course_content_try_def)
next
  case (Some t)
  let ?tr1 = "tr @ [Log (Generating t)]"
  show ?thesis
  proof (cases "llm_init E (Suc (length tr))")
    case (Some e)
    then show ?thesis using \<open>title cd = Some t\<close> by (simp add: generate_course_content_try_def)
  next
    case None
    obtain evs where d: "snd (generate_course_description E cd ?tr1) = ?tr1 @ evs"
      and g: "list_all generation_event evs"
      using generate_course_description_trace by blast
    have "snd (generate_course_content_try E cd tr) = ?tr1 @ evs"
      using \<open>title cd = Some t\<close> None d
      by (auto simp: generate_course_content_try_def modules_loop_trace
               split: option.splits sum.splits prod.splits
               dest: arg_cong [where f = snd])
    then have "snd (generate_course_content_try E cd tr) = tr @ (Log (Generating t) # evs)"
      by simp
    moreover have "list_all generation_event (Log (Generating t) # evs)" using g by simp
    ultimately show ?thesis by blast
  qed
qed

lemma generate_course_content_trace:
  "\<exists>evs. snd (generate_course_content E cd tr) = tr @ evs \<and> list_all generation_event evs
         \<and> evs \<noteq> []"
proof -
  obtain evs where d: "snd (generate_course_content_try E cd tr) = tr @ evs"
      and g: "list_all generation_event evs"
      and n: "evs = [] \<longrightarrow> (\<exists>e. fst (generate_course_content_try E cd tr) = Inl e)"
    using generate_course_content_try_trace by blast
  show ?thesis
  proof (cases "generate_course_content_try E cd tr")
    case (Pair r tr')
    then have tr': "tr' = tr @ evs" using d by simp
    show ?thesis
    proof (cases r)
      case (Inl e)
      then have "snd (generate_course_content E cd tr) = tr @ (evs @ [Log (ErrorGenerating e)])"
        using Pair tr' by (simp add: generate_course_content_def)
      moreover have "list_all generation_event (evs @ [Log (ErrorGenerating e)])" using g by simp
      ultimately show ?thesis by blast
    next
      case (Inr c)
      then have s: "snd (generate_course_content E cd tr) = tr @ evs"
        using Pair tr' by (simp add: generate_course_content_def)
      have "evs \<noteq> []" using n Pair Inr by auto
      then show ?thesis using s g by blast
    qed
  qed
qed

lemma generate_course_content_Inl:
  assumes "generate_course_content E cd tr = (Inl e, tr')"
  shows "\<exists>evs. tr' = tr @ evs @ [Log (ErrorGenerating e)] \<and> list_all generation_event evs"
proof -
  obtain evs where d: "snd (generate_course_content_try E cd tr) = tr @ evs"
      and g: "list_all generation_event evs"
    using generate_course_content_try_trace by blast
  obtain r tr0 where p: "generate_course_content_try E cd tr = (r, tr0)"
    by (cases "generate_course_content_try E cd tr")
  then have "r = Inl e \<and> tr' = tr0 @ [Log (ErrorGenerating e)]"
    using assms by (auto simp: generate_course_content_def split: sum.splits)
  then show ?thesis using p d g by auto
qed

lemma generate_course_content_nonempty_modules:
  assumes "modules cd = Some (m # ms)"
  shows "\<exists>e tr'. generate_course_content E cd tr = (Inl e, tr')"
proof -
  have "\<exists>e tr'. generate_course_content_try E cd tr = (Inl e, tr')"
    using assms
    by (auto simp: generate_course_content_try_def is_software_course_bool
             split: option.splits sum.splits prod.splits)
  then show ?thesis by (auto simp: generate_course_content_def)
qed

lemma strip_text: "strip ''text'' = ''text''"
  by (simp add: strip_def is_space_def)

subsection \<open>Courses with modules\<close>

text \<open>
  Claim C2. For every outline whose list of modules is not empty, \<open>generate_course_content\<close>
  raises: \<open>is_software_course\<close> raises \<open>AttributeError\<close> on every boolean, so the loop over the
  modules raises at its first module (when nothing before it has raised), and no course
  document is assembled. A message with such an outline writes no file and is never
  logged as successfully processed.
\<close>

theorem generate_course_content_raises_on_modules:
  assumes "modules cd = Some (m # ms)"
  shows "(\<exists>e tr'. generate_course_content E cd tr = (Inl e, tr'))
    \<and> is_software_course (PyBool b) = Inl (AttributeError ''lower'')
    \<and> modules_loop E cd (m # ms) acc tr0 = (Inl (AttributeError ''lower''), tr0)
    \<and> (val msg = cd \<longrightarrow>
         (\<exists>evs. process_message E msg tr = tr @ evs
            \<and> (\<forall>path content. WriteFile path content \<notin> set evs)
            \<and> (\<forall>t. Log (Processed t) \<notin> set evs)))"
proof -
  have a: "\<exists>e tr'. generate_course_content E cd tr = (Inl e, tr')"
    using assms by (rule generate_course_content_nonempty_modules)
  have d: "val msg = cd \<longrightarrow>
         (\<exists>evs. process_message E msg tr = tr @ evs
            \<and> (\<forall>path content. WriteFile path content \<notin> set evs)
            \<and> (\<forall>t. Log (Processed t) \<notin> set evs))"
  proof
    assume v: "val msg = cd"
    let ?tr1 = "tr @ [Log (Received (offset msg))]"
    show "\<exists>evs. process_message E msg tr = tr @ evs
            \<and> (\<forall>path content. WriteFile path content \<notin> set evs)
            \<and> (\<forall>t. Log (Processed t) \<notin> set evs)"
    proof (cases "list_all (has_key (val msg)) [''title'', ''modules'']")
      case False
      then have "process_message E msg tr = tr @ [Log (Received (offset msg)), Log InvalidFormat]"
        by (simp add: process_message_def)
      then show ?thesis by auto
    next
      case True
      obtain e tr' where g: "generate_course_content E cd ?tr1 = (Inl e, tr')"
        using assms generate_course_content_nonempty_modules by blast
      then obtain evs where t: "tr' = ?tr1 @ evs @ [Log (ErrorGenerating e)]"
        and ge: "list_all generation_event evs"
        using generate_course_content_Inl by blast
      have "process_message E msg tr
              = tr @ (Log (Received (offset msg)) # evs
                       @ [Log (ErrorGenerating e), Log (ErrorProcessing e)])"
        using True g t v by (simp add: process_message_def)
      moreover have "\<forall>path content. WriteFile path content \<notin> set evs"
        using ge by (auto simp: list_all_iff)
      moreover have "\<forall>t. Log (Processed t) \<notin> set evs"
        using ge by (auto simp: list_all_iff)
      ultimately show ?thesis by auto
    qed
  qed
  show ?thesis using a d is_software_course_bool modules_loop_Cons by blast
qed

theorem generate_course_content_raises_on_modules_witness:
  "modules go_course
     = Some [\<lparr>module_title = Some ''Basics'',
              sections = Some [\<lparr>section_title = Some ''Vars''\<rparr>, \<lparr>section_title = Some ''Loops''\<rparr>]\<rparr>]
   \<and> (\<exists>e tr'. generate_course_content (reliable_env ''text'') go_course [] = (Inl e, tr'))
   \<and> (\<exists>evs. process_message (reliable_env ''text'') \<lparr>offset = 7, val = go_course\<rparr> [] = evs
          \<and> (\<forall>path content. WriteFile path content \<notin> set evs)
          \<and> (\<forall>t. Log (Processed t) \<notin> set evs))"
proof -
  have h: "modules go_course
     = Some (\<lparr>module_title = Some ''Basics'',
              sections = Some [\<lparr>section_title = Some ''Vars''\<rparr>, \<lparr>section_title = Some ''Loops''\<rparr>]\<rparr>
             # [])"
    by (simp add: go_course_def)
  have v: "val \<lparr>offset = 7, val = go_course\<rparr> = go_course" by simp
  show ?thesis
    using generate_course_content_raises_on_modules
            [OF h, of "reliable_env ''text''" "[]" _ _ _ "\<lparr>offset = 7, val = go_course\<rparr>"] h v
    by auto
qed

text \<open>
  Claim C6. The variant is meant to be the classifier's answer on the course's category,
  the same for every module. On the outline of the specification's scenario (category
  "programming", one module "Basics") with a text-generation service that answers every
  call, the code requests the course description and then raises \<open>AttributeError\<close> at the first
  module: the classifier is handed a boolean, no variant is determined and no module is
  rendered.
\<close>

theorem go_course_raises:
  "generate_course_content (reliable_env ''text'') go_course []
     = (Inl (AttributeError ''lower''),
        [Log (Generating ''Intro to Go''),
         LLMCall (CourseDescription ''Intro to Go'' ''Basics''),
         Log (ErrorGenerating (AttributeError ''lower''))])"
proof -
  have toc: "\<exists>toc. generate_table_of_contents (the (modules go_course)) = Inr toc"
    using toc_modules_dict [of 1 "[(''Basics'', Some [''Vars'', ''Loops''])]" "[]"]
    by (simp add: go_course_def generate_table_of_contents_def module_dict_def section_dict_def)
  then obtain toc where "generate_table_of_contents (the (modules go_course)) = Inr toc" by blast
  then show ?thesis
    by (simp add: generate_course_content_def generate_course_content_try_def
          generate_course_description_def chain_run_def reliable_env_def go_course_def
          is_software_course_bool)
qed

subsection \<open>Failed and skipped messages\<close>

lemma save_course_content_trace:
  "\<exists>evs. save_course_content E t c tr = tr @ evs \<and> evs \<noteq> []
     \<and> protocol_run (Processing k) evs = Some (Persisted k)"
  by (cases "fs_write E (length tr) (filepath_of t) c") (simp_all add: save_course_content_def)

text \<open>
  Claim C3. When \<open>generate_course_content\<close> raises on a message with both required fields,
  the events of the message are: received, generation events (none of them a file
  write), the error logged by the generator, the error logged by \<open>process_message\<close>; then
  the loop commits the message's offset and goes on with the remaining messages.
\<close>

theorem generation_failure_drops_course:
  assumes "list_all (has_key (val msg)) [''title'', ''modules'']"
    and "generate_course_content E (val msg) (tr @ [Log (Received (offset msg))]) = (Inl e, tr')"
  shows "process_message E msg tr = tr' @ [Log (ErrorProcessing e)]
    \<and> (\<exists>evs. tr' = tr @ Log (Received (offset msg)) # evs @ [Log (ErrorGenerating e)]
          \<and> list_all generation_event evs
          \<and> (\<forall>path content. WriteFile path content \<notin> set evs))
    \<and> main_loop E (msg # msgs) tr
        = main_loop E msgs (tr' @ [Log (ErrorProcessing e), Commit (offset msg)])"
proof -
  have a: "process_message E msg tr = tr' @ [Log (ErrorProcessing e)]"
    using assms by (simp add: process_message_def)
  obtain evs where t: "tr' = (tr @ [Log (Received (offset msg))]) @ evs @ [Log (ErrorGenerating e)]"
    and g: "list_all generation_event evs"
    using generate_course_content_Inl [OF assms(2)] by blast
  have w: "\<forall>path content. WriteFile path content \<notin> set evs"
    using g by (auto simp: list_all_iff)
  have b: "\<exists>evs. tr' = tr @ Log (Received (offset msg)) # evs @ [Log (ErrorGenerating e)]
          \<and> list_all generation_event evs
          \<and> (\<forall>path content. WriteFile path content \<notin> set evs)"
    using t g w by auto
  have c: "main_loop E (msg # msgs) tr
        = main_loop E msgs (tr' @ [Log (ErrorProcessing e), Commit (offset msg)])"
    using a by simp
  show ?thesis using a b c by blast
qed

lemma empty_course_fails:
  "generate_course_content failing_llm_env empty_course [Log (Received 3)]
     = (Inl (GenerationFailure ''timeout''),
        [Log (Received 3), Log (Generating ''Quiet Hours''),
         LLMCall (CourseDescription ''Quiet Hours'' []),
         Log (ErrorGenerating (GenerationFailure ''timeout''))])"
  by (simp add: generate_course_content_def generate_course_content_try_def
        generate_course_description_def chain_run_def failing_llm_env_def empty_course_def)

theorem generation_failure_drops_course_witness:
  "list_all (has_key (val \<lparr>offset = 3, val = empty_course\<rparr>)) [''title'', ''modules'']
   \<and> process_message failing_llm_env \<lparr>offset = 3, val = empty_course\<rparr> []
       = [Log (Received 3), Log (Generating ''Quiet Hours''),
          LLMCall (CourseDescription ''Quiet Hours'' []),
          Log (ErrorGenerating (GenerationFailure ''timeout'')),
          Log (ErrorProcessing (GenerationFailure ''timeout''))]
   \<and> main_loop failing_llm_env [\<lparr>offset = 3, val = empty_course\<rparr>] []
       = [Log (Received 3), Log (Generating ''Quiet Hours''),
          LLMCall (CourseDescription ''Quiet Hours'' []),
          Log (ErrorGenerating (GenerationFailure ''timeout'')),
          Log (ErrorProcessing (GenerationFailure ''timeout'')), Commit 3]"
proof -
  let ?msg = "\<lparr>offset = 3, val = empty_course\<rparr>"
  have h1: "list_all (has_key (val ?msg)) [''title'', ''modules'']"
    by (simp add: has_key_def empty_course_def)
  have h2: "generate_course_content failing_llm_env (val ?msg) ([] @ [Log (Received (offset ?msg))])
     = (Inl (GenerationFailure ''timeout''),
        [Log (Received 3), Log (Generating ''Quiet Hours''),
         LLMCall (CourseDescription ''Quiet Hours'' []),
         Log (ErrorGenerating (GenerationFailure ''timeout''))])"
    using empty_course_fails by simp
  show ?thesis
    using generation_failure_drops_course [OF h1 h2, of "[]"] h1 by simp
qed

text \<open>
  Claim C4. A message whose payload lacks \<open>title\<close> or \<open>modules\<close> leaves exactly two events,
  received and invalid format, after which the loop commits its offset and goes on. Every
  call of \<open>generate_course_content\<close> leaves at least one generation event and every call of
  \<open>save_course_content\<close> leaves a file write or a logged saving error, so neither was called.
\<close>

theorem invalid_message_skipped:
  assumes "title (val msg) = None \<or> modules (val msg) = None"
  shows "process_message E msg tr = tr @ [Log (Received (offset msg)), Log InvalidFormat]
    \<and> main_loop E (msg # msgs) tr
        = main_loop E msgs (tr @ [Log (Received (offset msg)), Log InvalidFormat,
                                  Commit (offset msg)])
    \<and> (\<exists>evs. snd (generate_course_content E cd tr0) = tr0 @ evs \<and> evs \<noteq> []
          \<and> list_all generation_event evs)
    \<and> (\<exists>evs. save_course_content E t content tr0 = tr0 @ evs \<and> evs \<noteq> []
          \<and> (evs = [WriteFile (filepath_of t) content, Log (Saved (filepath_of t))]
              \<or> (\<exists>e. evs = [Log (ErrorSaving e)])))"
proof -
  have a: "process_message E msg tr = tr @ [Log (Received (offset msg)), Log InvalidFormat]"
    using assms by (auto simp: process_message_def has_key_def)
  have b: "main_loop E (msg # msgs) tr
        = main_loop E msgs (tr @ [Log (Received (offset msg)), Log InvalidFormat,
                                  Commit (offset msg)])"
    using a by simp
  have c: "\<exists>evs. snd (generate_course_content E cd tr0) = tr0 @ evs \<and> evs \<noteq> []
          \<and> list_all generation_event evs"
    using generate_course_content_trace by blast
  have d: "\<exists>evs. save_course_content E t content tr0 = tr0 @ evs \<and> evs \<noteq> []
          \<and> (evs = [WriteFile (filepath_of t) content, Log (Saved (filepath_of t))]
              \<or> (\<exists>e. evs = [Log (ErrorSaving e)]))"
    by (cases "fs_write E (length tr0) (filepath_of t) content")
       (simp_all add: save_course_content_def)
  show ?thesis using a b c d by blast
qed

theorem invalid_message_skipped_witness:
  "modules (val \<lparr>offset = 5, val = payload_without_modules\<rparr>) = None
   \<and> main_loop (reliable_env ''text'') [\<lparr>offset = 5, val = payload_without_modules\<rparr>] []
       = [Log (Received 5), Log InvalidFormat, Commit 5]"
proof -
  let ?msg = "\<lparr>offset = 5, val = payload_without_modules\<rparr>"
  have h: "modules (val ?msg) = None" by (simp add: payload_without_modules_def)
  then have h': "title (val ?msg) = None \<or> modules (val ?msg) = None" by simp
  show ?thesis
    using invalid_message_skipped [OF h', of "reliable_env ''text''" "[]" "[]"] h by simp
qed

subsection \<open>Commit after processing\<close>

lemma protocol_run_append:
  "protocol_run ph (xs @ ys)
     = (case protocol_run ph xs of None \<Rightarrow> None | Some ph' \<Rightarrow> protocol_run ph' ys)"
  by (induction xs arbitrary: ph) (simp_all split: option.splits)

lemma protocol_run_generation:
  "list_all generation_event evs \<Longrightarrow> protocol_run (Processing k) evs = Some (Processing k)"
proof (induction evs)
  case Nil
  then show ?case by simp
next
  case (Cons ev evs)
  then have "generation_event ev" by simp
  then have "protocol_step (Processing k) ev = Some (Processing k)"
    by (cases ev rule: generation_event.cases) simp_all
  then show ?case using Cons by simp
qed

lemma process_message_protocol:
  "\<exists>evs. process_message E msg tr = tr @ evs
     \<and> protocol_run Idle evs = Some (Determined (offset msg))"
proof (cases "list_all (has_key (val msg)) [''title'', ''modules'']")
  case False
  then have "process_message E msg tr = tr @ [Log (Received (offset msg)), Log InvalidFormat]"
    by (simp add: process_message_def)
  then show ?thesis by simp
next
  case True
  let ?k = "offset msg"
  let ?tr1 = "tr @ [Log (Received ?k)]"
  obtain r tr' where g: "generate_course_content E (val msg) ?tr1 = (r, tr')"
    by (cases "generate_course_content E (val msg) ?tr1")
  obtain evs where t: "tr' = ?tr1 @ evs" and ge: "list_all generation_event evs"
    using generate_course_content_trace [of E "val msg" ?tr1] g by auto
  have run1: "protocol_run Idle (Log (Received ?k) # evs) = Some (Processing ?k)"
    using ge by (simp add: protocol_run_generation)
  show ?thesis
  proof (cases r)
    case (Inl e)
    then have "process_message E msg tr
                 = tr @ ((Log (Received ?k) # evs) @ [Log (ErrorProcessing e)])"
      using True g t by (simp add: process_message_def)
    moreover have "protocol_run Idle ((Log (Received ?k) # evs) @ [Log (ErrorProcessing e)])
                     = Some (Determined ?k)"
      using run1 by (simp only: protocol_run_append) simp
    ultimately show ?thesis by blast
  next
    case (Inr content)
    obtain ti where ti: "title (val msg) = Some ti"
      using True by (auto simp: has_key_def)
    obtain sv where s: "save_course_content E ti content tr' = tr' @ sv"
      and p: "protocol_run (Processing ?k) sv = Some (Persisted ?k)"
      using save_course_content_trace by blast
    have "process_message E msg tr
                 = tr @ ((Log (Received ?k) # evs) @ sv @ [Log (Processed ti)])"
      using True g t Inr ti s by (simp add: process_message_def)
    moreover have "protocol_run Idle ((Log (Received ?k) # evs) @ sv @ [Log (Processed ti)])
                     = Some (Determined ?k)"
      using run1 p by (simp only: protocol_run_append) simp
    ultimately show ?thesis by blast
  qed
qed

lemma main_loop_protocol:
  "protocol_run Idle tr = Some Idle \<Longrightarrow> protocol_run Idle (main_loop E msgs tr) = Some Idle"
proof (induction msgs arbitrary: tr)
  case Nil
  then show ?case by simp
next
  case (Cons msg msgs)
  obtain evs where p: "process_message E msg tr = tr @ evs"
    and r: "protocol_run Idle evs = Some (Determined (offset msg))"
    using process_message_protocol by blast
  have "protocol_run Idle (process_message E msg tr @ [Commit (offset msg)]) = Some Idle"
    using Cons.prems r unfolding p by (simp add: protocol_run_append)
  then show ?case using Cons.IH by simp
qed

lemma main_loop_snoc:
  "main_loop E (msgs @ [msg]) tr = process_message E msg (main_loop E msgs tr) @ [Commit (offset msg)]"
  by (induction msgs arbitrary: tr) simp_all

lemma filepath_quiet_hours: "filepath_of ''Quiet Hours'' = ''generated_courses/quiet_hours.md''"
  by (simp add: filepath_of_def filename_of_def replace_def lower_eval)

lemma empty_course_generated:
  "generate_course_content (reliable_env ''text'') empty_course tr
     = (Inr (COURSE_TEMPLATE ''Quiet Hours'' ''text'' [] []),
        tr @ [Log (Generating ''Quiet Hours''), LLMCall (CourseDescription ''Quiet Hours'' [])])"
  by (simp add: generate_course_content_def generate_course_content_try_def
        generate_course_description_def chain_run_def reliable_env_def empty_course_def
        generate_table_of_contents_def strip_text)

lemma two_messages_trace:
  "main_loop (reliable_env ''text'')
     [\<lparr>offset = 5, val = payload_without_modules\<rparr>, \<lparr>offset = 6, val = empty_course\<rparr>] []
   = [Log (Received 5), Log InvalidFormat, Commit 5,
      Log (Received 6), Log (Generating ''Quiet Hours''),
      LLMCall (CourseDescription ''Quiet Hours'' []),
      WriteFile ''generated_courses/quiet_hours.md'' (COURSE_TEMPLATE ''Quiet Hours'' ''text'' [] []),
      Log (Saved ''generated_courses/quiet_hours.md''), Log (Processed ''Quiet Hours''),
      Commit 6]"
proof -
  have v: "has_key empty_course ''title''" "has_key empty_course ''modules''"
    "\<not> has_key payload_without_modules ''modules''"
    "title empty_course = Some ''Quiet Hours''"
    by (simp_all add: has_key_def empty_course_def payload_without_modules_def)
  have w: "fs_write (reliable_env ''text'') n p c = None" for n p c
    by (simp add: reliable_env_def)
  show ?thesis
    by (simp add: process_message_def v empty_course_generated save_course_content_def w
          filepath_quiet_hours)
qed

text \<open>
  Claim C1. The loop appends the commit of a message directly after everything
  \<open>process_message\<close> did for it. The events of \<open>process_message\<close> lead from \<open>Idle\<close> to
  \<open>Determined\<close>: skipped, failed, or successfully processed after the persistence step has
  returned. Hence the whole trace of the loop follows the commit protocol: every commit
  comes after the determination of its own message, and after the file write if there is
  one.
\<close>

theorem commit_after_processing:
  "protocol_run Idle (main_loop E msgs []) = Some Idle
   \<and> main_loop E (msgs @ [msg]) tr
       = process_message E msg (main_loop E msgs tr) @ [Commit (offset msg)]
   \<and> (\<exists>evs. process_message E msg tr = tr @ evs
         \<and> protocol_run Idle evs = Some (Determined (offset msg)))"
  using main_loop_protocol [of "[]" E msgs] main_loop_snoc process_message_protocol
  by simp

theorem commit_after_processing_witness:
  "protocol_run Idle
     [Log (Received 5), Log InvalidFormat, Commit 5,
      Log (Received 6), Log (Generating ''Quiet Hours''),
      LLMCall (CourseDescription ''Quiet Hours'' []),
      WriteFile ''generated_courses/quiet_hours.md'' (COURSE_TEMPLATE ''Quiet Hours'' ''text'' [] []),
      Log (Saved ''generated_courses/quiet_hours.md''), Log (Processed ''Quiet Hours''),
      Commit 6] = Some Idle"
  using commit_after_processing
    [of "reliable_env ''text''"
        "[\<lparr>offset = 5, val = payload_without_modules\<rparr>, \<lparr>offset = 6, val = empty_course\<rparr>]"]
  by (simp only: two_messages_trace)

subsection \<open>Renderings\<close>

text \<open>
  \<open>strip\<close> removes a prefix and a suffix of whitespace and leaves a text that neither begins
  nor ends with whitespace.
\<close>

lemma rev_dropWhile_takeWhile:
  "xs = rev (dropWhile P (rev xs)) @ rev (takeWhile P (rev xs))"
  by (metis rev_append rev_rev_ident takeWhile_dropWhile_id)

lemma strip_decomp:
  "\<exists>a b. s = a @ strip s @ b \<and> list_all is_space a \<and> list_all is_space b"
proof -
  let ?u = "dropWhile is_space s"
  let ?a = "takeWhile is_space s"
  let ?b = "rev (takeWhile is_space (rev ?u))"
  have u: "?u = strip s @ ?b" unfolding strip_def by (rule rev_dropWhile_takeWhile)
  have "s = ?a @ ?u" by simp
  then have "s = ?a @ strip s @ ?b" using u by simp
  moreover have "list_all is_space ?a" by (simp add: list_all_iff) (metis set_takeWhileD)
  moreover have "list_all is_space ?b" by (simp add: list_all_iff) (metis set_takeWhileD)
  ultimately show ?thesis by blast
qed

lemma strip_ends:
  assumes "strip s \<noteq> []"
  shows "\<not> is_space (hd (strip s)) \<and> \<not> is_space (last (strip s))"
proof -
  let ?u = "dropWhile is_space s"
  let ?v = "dropWhile is_space (rev ?u)"
  have v: "?v \<noteq> []" using assms by (simp add: strip_def)
  then have hv: "\<not> is_space (hd ?v)" by (rule hd_dropWhile)
  have "last (strip s) = hd ?v" using v by (simp add: strip_def last_rev)
  then have l: "\<not> is_space (last (strip s))" using hv by simp
  have u: "?u \<noteq> []" using v by (metis dropWhile.simps(1) rev.simps(1))
  then have hu: "\<not> is_space (hd ?u)" by (rule hd_dropWhile)
  have "?u = strip s @ rev (takeWhile is_space (rev ?u))"
    unfolding strip_def by (rule rev_dropWhile_takeWhile)
  then have "hd ?u = hd (strip s)" using assms by (metis hd_append2)
  then show ?thesis using hu l by simp
qed

text \<open>
  The rendering of a standard module with title "Basics" and generated body "text" begins
  and ends with a newline: it is not the title line, a blank line and the body alone.
\<close>

theorem standard_rendering_counterexample:
  "generate_standard_module (reliable_env ''text'') \<lparr>module_title = Some ''Basics'', sections = None\<rparr> []
     = (Inr (nl @ ''## Basics'' @ nl @ nl @ ''text'' @ nl),
        [LLMCall (ModuleBody ''Basics'' ''No specific sections'')])
   \<and> nl @ ''## Basics'' @ nl @ nl @ ''text'' @ nl \<noteq> ''## Basics'' @ nl @ nl @ ''text''"
  by (simp add: generate_standard_module_def module_section_titles_def sections_arg_def
        chain_run_def reliable_env_def MODULE_TEMPLATE_def strip_text nl_def)

text \<open>
  Claim C8, amended. Each template begins with a newline and ends with a newline. Writing
  NL for a newline, the standard rendering of a module with a title is
  \<open>NL ## {title} NL NL {body} NL\<close>, its rendering with code examples is
  \<open>NL ## {title} NL NL {body} NL NL ### Code Examples NL NL {codeExamples} NL\<close>, and the
  course template is
  \<open>NL # {title} NL NL {description} NL NL ## Table of Contents NL {toc} NL NL {modules} NL\<close>
  (no space around NL), applied to the module renderings joined by a blank line; a course
  without modules is generated as this template with an empty table of contents and no
  module. The description, the body and the code examples are inserted stripped of
  leading and trailing whitespace.
\<close>

theorem rendering_templates:
  assumes "module_title m = Some t" and "module_section_titles m = Inr ts"
    and "llm_run E (length tr) (ModuleBody t (sections_arg ts)) = Inr body"
    and "llm_run E (length tr) (ModuleBodyNoCode t (sections_arg ts)) = Inr body"
    and "llm_run E (Suc (length tr)) (ModuleCodeExamples t (sections_arg ts)) = Inr code"
    and "title cd = Some T" and "modules cd = Some []"
    and "llm_init E (Suc (length tr)) = None"
    and "llm_run E (Suc (length tr)) (CourseDescription T []) = Inr d"
  shows "generate_standard_module E m tr
           = (Inr (nl @ ''## '' @ t @ nl @ nl @ strip body @ nl),
              tr @ [LLMCall (ModuleBody t (sections_arg ts))])
    \<and> generate_software_module E m tr
           = (Inr (nl @ ''## '' @ t @ nl @ nl @ strip body @ nl @ nl
                     @ ''### Code Examples'' @ nl @ nl @ strip code @ nl),
              tr @ [LLMCall (ModuleBodyNoCode t (sections_arg ts)),
                    LLMCall (ModuleCodeExamples t (sections_arg ts))])
    \<and> generate_course_content E cd tr
           = (Inr (COURSE_TEMPLATE T (strip d) [] (join (nl @ nl) [])),
              tr @ [Log (Generating T), LLMCall (CourseDescription T [])])
    \<and> COURSE_TEMPLATE T' d' toc (join (nl @ nl) rs)
           = nl @ ''# '' @ T' @ nl @ nl @ d' @ nl @ nl @ ''## Table of Contents'' @ nl @ toc
               @ nl @ nl @ join (nl @ nl) rs @ nl
    \<and> (\<exists>a b. s = a @ strip s @ b \<and> list_all is_space a \<and> list_all is_space b)
    \<and> (strip s \<noteq> [] \<longrightarrow> \<not> is_space (hd (strip s)) \<and> \<not> is_space (last (strip s)))"
proof -
  have a: "generate_standard_module E m tr
           = (Inr (nl @ ''## '' @ t @ nl @ nl @ strip body @ nl),
              tr @ [LLMCall (ModuleBody t (sections_arg ts))])"
    using assms(1-3) by (simp add: generate_standard_module_def chain_run_def MODULE_TEMPLATE_def)
  have b: "generate_software_module E m tr
           = (Inr (nl @ ''## '' @ t @ nl @ nl @ strip body @ nl @ nl
                     @ ''### Code Examples'' @ nl @ nl @ strip code @ nl),
              tr @ [LLMCall (ModuleBodyNoCode t (sections_arg ts)),
                    LLMCall (ModuleCodeExamples t (sections_arg ts))])"
    using assms(1,2,4,5)
    by (simp add: generate_software_module_def chain_run_def SOFTWARE_MODULE_TEMPLATE_def)
  have c: "generate_course_content E cd tr
           = (Inr (COURSE_TEMPLATE T (strip d) [] (join (nl @ nl) [])),
              tr @ [Log (Generating T), LLMCall (CourseDescription T [])])"
    using assms(6-9)
    by (simp add: generate_course_content_def generate_course_content_try_def
          generate_course_description_def chain_run_def generate_table_of_contents_def)
  have e: "COURSE_TEMPLATE T' d' toc (join (nl @ nl) rs)
           = nl @ ''# '' @ T' @ nl @ nl @ d' @ nl @ nl @ ''## Table of Contents'' @ nl @ toc
               @ nl @ nl @ join (nl @ nl) rs @ nl"
    by (simp add: COURSE_TEMPLATE_def)
  show ?thesis using a b c e strip_decomp strip_ends by blast
qed

lemma strip_padded: "strip '' text  '' = ''text''"
  by (simp add: strip_def is_space_def)

theorem rendering_templates_witness:
  "generate_standard_module (reliable_env '' text  '')
       \<lparr>module_title = Some ''Basics'', sections = None\<rparr> []
     = (Inr (nl @ ''## Basics'' @ nl @ nl @ ''text'' @ nl),
        [LLMCall (ModuleBody ''Basics'' ''No specific sections'')])
   \<and> generate_software_module (reliable_env '' text  '')
       \<lparr>module_title = Some ''Basics'', sections = None\<rparr> []
     = (Inr (nl @ ''## Basics'' @ nl @ nl @ ''text'' @ nl @ nl @ ''### Code Examples'' @ nl @ nl
              @ ''text'' @ nl),
        [LLMCall (ModuleBodyNoCode ''Basics'' ''No specific sections''),
         LLMCall (ModuleCodeExamples ''Basics'' ''No specific sections'')])
   \<and> generate_course_content (reliable_env '' text  '') empty_course []
     = (Inr (nl @ ''# Quiet Hours'' @ nl @ nl @ ''text'' @ nl @ nl @ ''## Table of Contents'' @ nl
              @ nl @ nl @ nl),
        [Log (Generating ''Quiet Hours''), LLMCall (CourseDescription ''Quiet Hours'' [])])
   \<and> strip '' text  '' = ''text''
   \<and> \<not> is_space (hd (strip '' text  '')) \<and> \<not> is_space (last (strip '' text  ''))"
proof -
  let ?E = "reliable_env '' text  ''"
  let ?m = "\<lparr>module_title = Some ''Basics'', sections = None\<rparr>"
  have r: "llm_run ?E n p = Inr '' text  ''" for n p
    by (simp add: reliable_env_def)
  have i: "llm_init ?E n = None" for n by (simp add: reliable_env_def)
  have h1: "module_title ?m = Some ''Basics''" by simp
  have h2: "module_section_titles ?m = Inr []" by (simp add: module_section_titles_def)
  have h6: "title empty_course = Some ''Quiet Hours''" by (simp add: empty_course_def)
  have h7: "modules empty_course = Some []" by (simp add: empty_course_def)
  have n: "strip '' text  '' \<noteq> []" by (simp add: strip_padded)
  note t = rendering_templates [OF h1 h2 r r r h6 h7 i r, where tr = "[]" and s = "'' text  ''"]
  from t n have e: "\<not> is_space (hd (strip '' text  '')) \<and> \<not> is_space (last (strip '' text  ''))"
    by blast
  from t have "generate_standard_module ?E ?m []
           = (Inr (nl @ ''## '' @ ''Basics'' @ nl @ nl @ strip '' text  '' @ nl),
              [] @ [LLMCall (ModuleBody ''Basics'' (sections_arg []))])"
    and "generate_software_module ?E ?m []
           = (Inr (nl @ ''## '' @ ''Basics'' @ nl @ nl @ strip '' text  '' @ nl @ nl
                     @ ''### Code Examples'' @ nl @ nl @ strip '' text  '' @ nl),
              [] @ [LLMCall (ModuleBodyNoCode ''Basics'' (sections_arg [])),
                    LLMCall (ModuleCodeExamples ''Basics'' (sections_arg []))])"
    and "generate_course_content ?E empty_course []
           = (Inr (COURSE_TEMPLATE ''Quiet Hours'' (strip '' text  '') [] (join (nl @ nl) [])),
              [] @ [Log (Generating ''Quiet Hours''), LLMCall (CourseDescription ''Quiet Hours'' [])])"
    by blast+
  then show ?thesis
    using e by (simp add: strip_padded sections_arg_def COURSE_TEMPLATE_def)
qed

subsection \<open>Persistence\<close>

text \<open>
  The generator only returns a document for an outline whose list of modules is empty.
\<close>

lemma generate_course_content_Inr_modules:
  assumes "generate_course_content E cd tr = (Inr content, tr')"
  shows "modules cd = Some []"
proof (cases "modules cd")
  case None
  then have "\<exists>e tr'. generate_course_content_try E cd tr = (Inl e, tr')"
    by (auto simp: generate_course_content_try_def generate_course_description_def
             split: option.splits sum.splits prod.splits)
  then show ?thesis using assms by (auto simp: generate_course_content_def)
next
  case (Some ms)
  show ?thesis
  proof (cases ms)
    case Nil
    then show ?thesis using Some by simp
  next
    case (Cons m ms')
    then have "\<exists>e tr'. generate_course_content E cd tr = (Inl e, tr')"
      using Some generate_course_content_nonempty_modules by blast
    then show ?thesis using assms by auto
  qed
qed

lemma filename_of_map:
  "filename_of t
     = map (\<lambda>c. if c = CHR '' '' \<or> c = CHR ''/'' \<or> c = CHR 0x5C then CHR ''_'' else c) (lower t)"
  by (simp add: filename_of_def replace_def)

text \<open>
  For the title "A/B" the file written is \<open>generated_courses/a_b.md\<close>: the path separator
  is replaced by an underscore. Removing it would give \<open>generated_courses/ab.md\<close>.
\<close>

theorem filename_counterexample:
  "save_course_content (reliable_env ''text'') ''A/B'' ''doc'' []
     = [WriteFile ''generated_courses/a_b.md'' ''doc'', Log (Saved ''generated_courses/a_b.md'')]
   \<and> ''generated_courses/'' @ stripped_filename ''A/B'' @ ''.md'' = ''generated_courses/ab.md''"
proof -
  have l: "lower ''A/B'' = ''a/b''" by (simp add: lower_eval)
  show ?thesis
    by (simp add: save_course_content_def reliable_env_def filepath_of_def filename_of_def
          stripped_filename_def replace_def l)
qed

text \<open>
  Claim C9, amended. When the generator returns a document for a message and the file
  system accepts the write, the document is written to \<open>generated_courses/{name}.md\<close>, where
  the name is the lowercased title with every space, slash and backslash replaced by an
  underscore (so it contains no path separator); the write and its log entries come
  before the commit of the message's offset.
\<close>

theorem artifact_saved_before_commit:
  assumes "generate_course_content E (val msg) (tr @ [Log (Received (offset msg))])
             = (Inr content, tr')"
    and "title (val msg) = Some t"
    and "fs_write E (length tr') (filepath_of t) content = None"
  shows "process_message E msg tr
           = tr' @ [WriteFile (filepath_of t) content, Log (Saved (filepath_of t)),
                    Log (Processed t)]
    \<and> main_loop E (msg # msgs) tr
           = main_loop E msgs
               (tr' @ [WriteFile (filepath_of t) content, Log (Saved (filepath_of t)),
                       Log (Processed t), Commit (offset msg)])
    \<and> filepath_of t
           = ''generated_courses/''
               @ map (\<lambda>c. if c = CHR '' '' \<or> c = CHR ''/'' \<or> c = CHR 0x5C then CHR ''_'' else c)
                   (lower t)
               @ ''.md''
    \<and> CHR ''/'' \<notin> set (filename_of t) \<and> CHR 0x5C \<notin> set (filename_of t)"
proof -
  have m: "modules (val msg) = Some []"
    using assms(1) by (rule generate_course_content_Inr_modules)
  have v: "list_all (has_key (val msg)) [''title'', ''modules'']"
    using m assms(2) by (simp add: has_key_def)
  have a: "process_message E msg tr
           = tr' @ [WriteFile (filepath_of t) content, Log (Saved (filepath_of t)),
                    Log (Processed t)]"
    using v assms by (simp add: process_message_def save_course_content_def)
  have b: "main_loop E (msg # msgs) tr
           = main_loop E msgs
               (tr' @ [WriteFile (filepath_of t) content, Log (Saved (filepath_of t)),
                       Log (Processed t), Commit (offset msg)])"
    using a by simp
  have c: "filepath_of t
           = ''generated_courses/''
               @ map (\<lambda>c. if c = CHR '' '' \<or> c = CHR ''/'' \<or> c = CHR 0x5C then CHR ''_'' else c)
                   (lower t)
               @ ''.md''"
    by (simp add: filepath_of_def filename_of_map)
  have d: "CHR ''/'' \<notin> set (filename_of t) \<and> CHR 0x5C \<notin> set (filename_of t)"
    by (auto simp: filename_of_map)
  show ?thesis using a b c d by blast
qed

theorem artifact_saved_before_commit_witness:
  "main_loop (reliable_env ''text'') [\<lparr>offset = 6, val = empty_course\<rparr>] []
     = [Log (Received 6), Log (Generating ''Quiet Hours''),
        LLMCall (CourseDescription ''Quiet Hours'' []),
        WriteFile ''generated_courses/quiet_hours.md'' (COURSE_TEMPLATE ''Quiet Hours'' ''text'' [] []),
        Log (Saved ''generated_courses/quiet_hours.md''), Log (Processed ''Quiet Hours''),
        Commit 6]"
proof -
  let ?E = "reliable_env ''text''"
  let ?msg = "\<lparr>offset = 6, val = empty_course\<rparr>"
  let ?doc = "COURSE_TEMPLATE ''Quiet Hours'' ''text'' [] []"
  let ?tr' = "[Log (Received 6), Log (Generating ''Quiet Hours''),
               LLMCall (CourseDescription ''Quiet Hours'' [])]"
  have h1: "generate_course_content ?E (val ?msg) ([] @ [Log (Received (offset ?msg))])
              = (Inr ?doc, ?tr')"
    using empty_course_generated [of "[Log (Received 6)]"] by simp
  have h2: "title (val ?msg) = Some ''Quiet Hours''" by (simp add: empty_course_def)
  have h3: "fs_write ?E (length ?tr') (filepath_of ''Quiet Hours'') ?doc = None"
    by (simp add: reliable_env_def)
  show ?thesis
    using artifact_saved_before_commit [OF h1 h2 h3, of "[]"]
    by (simp add: filepath_quiet_hours)
qed

subsection \<open>Headings of the composed document\<close>

text \<open>
  Splitting at newlines distributes over the pieces of a text joined by newlines, and so
  does the list of second-level headings.
\<close>

lemma split_lines_nonempty: "split_lines s \<noteq> []"
  by (induction s) (auto split: list.splits)

lemma split_lines_append_nl:
  "split_lines (a @ CHR 0x0A # b) = split_lines a @ split_lines b"
proof (induction a)
  case Nil
  then show ?case by simp
next
  case (Cons c a)
  obtain l ls where "split_lines a = l # ls"
    using split_lines_nonempty by (cases "split_lines a") auto
  then show ?case using Cons by simp
qed

lemma split_lines_no_nl: "CHR 0x0A \<notin> set s \<Longrightarrow> split_lines s = [s]"
  by (induction s) auto

lemma level2_headings_append_nl:
  "level2_headings (a @ nl @ b) = level2_headings a @ level2_headings b"
  by (simp add: level2_headings_def nl_def split_lines_append_nl)

lemma level2_headings_join:
  "ps \<noteq> [] \<Longrightarrow> level2_headings (join nl ps) = concat (map level2_headings ps)"
proof (induction ps)
  case Nil
  then show ?case by simp
next
  case (Cons p ps)
  show ?case
  proof (cases ps)
    case Nil
    then show ?thesis by simp
  next
    case (Cons q qs)
    then show ?thesis using Cons.IH by (simp add: level2_headings_append_nl)
  qed
qed

lemma level2_headings_Nil: "level2_headings [] = []"
  by (simp add: level2_headings_def)

lemma level2_headings_line:
  "CHR 0x0A \<notin> set s \<Longrightarrow>
     level2_headings s = (if take 3 s = ''## '' then [drop 3 s] else [])"
  by (simp add: level2_headings_def split_lines_no_nl)

lemma level2_headings_heading:
  "CHR 0x0A \<notin> set t \<Longrightarrow> level2_headings (CHR ''#'' # CHR ''#'' # CHR '' '' # t) = [t]"
  by (simp add: level2_headings_line)

lemma level2_headings_title:
  "CHR 0x0A \<notin> set t \<Longrightarrow> level2_headings (CHR ''#'' # CHR '' '' # t) = []"
  by (simp add: level2_headings_line)

lemma MODULE_TEMPLATE_join:
  "MODULE_TEMPLATE t body = join nl [[], ''## '' @ t, [], body, []]"
  by (simp add: MODULE_TEMPLATE_def)

lemma SOFTWARE_MODULE_TEMPLATE_join:
  "SOFTWARE_MODULE_TEMPLATE t body code
     = join nl [[], ''## '' @ t, [], body, [], ''### Code Examples'', [], code, []]"
  by (simp add: SOFTWARE_MODULE_TEMPLATE_def)

lemma COURSE_TEMPLATE_join:
  "COURSE_TEMPLATE t d toc mc
     = join nl [[], ''# '' @ t, [], d, [], ''## Table of Contents'', toc, [], mc, []]"
  by (simp add: COURSE_TEMPLATE_def)

lemma level2_headings_render_module:
  assumes "CHR 0x0A \<notin> set (fst a)" and "level2_headings (fst (snd a)) = []"
    and "\<forall>code. snd (snd a) = Some code \<longrightarrow> level2_headings code = []"
  shows "level2_headings (render_module a) = [fst a]"
proof -
  obtain t body c where a: "a = (t, body, c)" by (cases a)
  have e: "level2_headings ''### Code Examples'' = []"
    by (simp add: level2_headings_line)
  show ?thesis
  proof (cases c)
    case None
    then show ?thesis
      using assms a
      by (simp add: MODULE_TEMPLATE_join level2_headings_join level2_headings_Nil
            level2_headings_heading del: join.simps)
  next
    case (Some code)
    then show ?thesis
      using assms a e
      by (simp add: SOFTWARE_MODULE_TEMPLATE_join level2_headings_join level2_headings_Nil
            level2_headings_heading del: join.simps)
  qed
qed

lemma level2_headings_modules:
  assumes "\<forall>a \<in> set arts. CHR 0x0A \<notin> set (fst a) \<and> level2_headings (fst (snd a)) = []
             \<and> (\<forall>code. snd (snd a) = Some code \<longrightarrow> level2_headings code = [])"
  shows "level2_headings (join (nl @ nl) (map render_module arts)) = map fst arts"
  using assms
proof (induction arts)
  case Nil
  then show ?case by (simp add: level2_headings_Nil)
next
  case (Cons a arts)
  have h: "level2_headings (render_module a) = [fst a]"
    using Cons.prems by (simp add: level2_headings_render_module)
  show ?case
  proof (cases arts)
    case Nil
    then show ?thesis using h by simp
  next
    case (Cons b bs)
    have "join (nl @ nl) (map render_module (a # arts))
            = render_module a @ nl @ ([] @ nl @ join (nl @ nl) (map render_module arts))"
      using Cons by simp
    then have "level2_headings (join (nl @ nl) (map render_module (a # arts)))
            = level2_headings (render_module a) @ level2_headings []
                @ level2_headings (join (nl @ nl) (map render_module arts))"
      by (simp only: level2_headings_append_nl)
    then show ?thesis using h Cons.IH Cons.prems by (simp add: level2_headings_Nil)
  qed
qed

lemma level2_headings_compose:
  assumes "CHR 0x0A \<notin> set t" and "level2_headings d = []" and "level2_headings toc = []"
    and "\<forall>a \<in> set arts. CHR 0x0A \<notin> set (fst a) \<and> level2_headings (fst (snd a)) = []
             \<and> (\<forall>code. snd (snd a) = Some code \<longrightarrow> level2_headings code = [])"
  shows "level2_headings (compose_course t d toc arts) = ''Table of Contents'' # map fst arts"
proof -
  have h: "level2_headings ''## Table of Contents'' = [''Table of Contents'']"
    by (simp add: level2_headings_line)
  show ?thesis
    using assms h level2_headings_modules [OF assms(4)]
    by (simp add: compose_course_def COURSE_TEMPLATE_join level2_headings_join
          level2_headings_Nil level2_headings_title del: join.simps)
qed

text \<open>
  The lines of the table of contents contain no newline when the titles contain none, and
  they start with a digit or a space: none of them is a second-level heading.
\<close>

lemma lower_char_nl:
  assumes c: "c \<noteq> CHR 0x0A"
  shows "lower_char c \<noteq> CHR 0x0A"
proof (cases "(65 \<le> (of_char c :: nat) \<and> (of_char c :: nat) \<le> 90)
              \<or> (192 \<le> (of_char c :: nat) \<and> (of_char c :: nat) \<le> 222 \<and> (of_char c :: nat) \<noteq> 215)")
  case False
  have "lower_char c = c" unfolding lower_char_def Let_def by (rule if_not_P [OF False])
  then show ?thesis using c by simp
next
  case True
  have l: "lower_char c = char_of ((of_char c :: nat) + 32)"
    unfolding lower_char_def Let_def by (rule if_P [OF True])
  have "(of_char (char_of ((of_char c :: nat) + 32)) :: nat) = ((of_char c :: nat) + 32) mod 256"
    by (rule of_char_of)
  moreover have "((of_char c :: nat) + 32) mod 256 = (of_char c :: nat) + 32"
    using True by auto
  ultimately have n: "(of_char (lower_char c) :: nat) = (of_char c :: nat) + 32"
    using l by simp
  show ?thesis
  proof
    assume "lower_char c = CHR 0x0A"
    then have "(of_char (lower_char c) :: nat) = 10" by simp
    then show False using n True by arith
  qed
qed

lemma anchor_nl:
  assumes "CHR 0x0A \<notin> set t"
  shows "CHR 0x0A \<notin> set (anchor t)"
proof
  assume "CHR 0x0A \<in> set (anchor t)"
  then obtain c where c: "c \<in> set t"
    and e: "(if lower_char c = CHR '' '' then CHR ''-'' else lower_char c) = CHR 0x0A"
    unfolding anchor_def replace_def lower_def by (auto simp only: set_map image_iff)
  have "c \<noteq> CHR 0x0A" using c assms by blast
  then have "lower_char c \<noteq> CHR 0x0A" by (rule lower_char_nl)
  moreover have "lower_char c = CHR 0x0A"
  proof (cases "lower_char c = CHR '' ''")
    case True
    then have "CHR ''-'' = CHR 0x0A" using e by simp
    then show ?thesis by simp
  next
    case False
    then show ?thesis using e by simp
  qed
  ultimately show False by contradiction
qed

lemma digit_char_digit: "d < 10 \<Longrightarrow> digit_char d \<in> set ''0123456789''"
  unfolding digit_char_def by (rule nth_mem) simp

lemma str_nat_digits: "set (str_nat n) \<subseteq> set ''0123456789'' \<and> str_nat n \<noteq> []"
proof (induction n rule: str_nat.induct)
  case (1 n)
  show ?case
  proof (cases "n < 10")
    case True
    then have "str_nat n = [digit_char n]" by (simp add: str_nat.simps)
    then show ?thesis using digit_char_digit [OF True] by simp
  next
    case False
    then have s: "str_nat n = str_nat (n div 10) @ [digit_char (n mod 10)]"
      by (subst str_nat.simps) simp
    have "digit_char (n mod 10) \<in> set ''0123456789''" by (rule digit_char_digit) simp
    then show ?thesis using 1 False s by simp
  qed
qed

lemma str_nat_nl: "CHR 0x0A \<notin> set (str_nat n)"
  using str_nat_digits [of n] by auto

lemma str_nat_hd: "\<exists>c cs. str_nat n = c # cs \<and> c \<noteq> CHR ''#''"
proof -
  obtain c cs where e: "str_nat n = c # cs" using str_nat_digits [of n] by (cases "str_nat n") auto
  then have "c \<in> set ''0123456789''" using str_nat_digits [of n] by auto
  then have "c \<noteq> CHR ''#''" by auto
  then show ?thesis using e by blast
qed

lemma level2_headings_module_entry:
  assumes "CHR 0x0A \<notin> set t"
  shows "level2_headings (module_entry i t) = []"
proof -
  obtain c cs where e: "str_nat i = c # cs" and c: "c \<noteq> CHR ''#''" using str_nat_hd by blast
  have "CHR 0x0A \<notin> set (module_entry i t)"
    using assms anchor_nl [OF assms] str_nat_nl [of i] by (simp add: module_entry_def)
  moreover have "take 3 (module_entry i t) \<noteq> ''## ''"
    using e c by (simp add: module_entry_def)
  ultimately show ?thesis by (simp add: level2_headings_line)
qed

lemma level2_headings_section_entry:
  assumes "CHR 0x0A \<notin> set t"
  shows "level2_headings (section_entry i j t) = []"
proof -
  have "CHR 0x0A \<notin> set (section_entry i j t)"
    using assms anchor_nl [OF assms] str_nat_nl [of i] str_nat_nl [of j]
    by (simp add: section_entry_def)
  moreover have "take 3 (section_entry i j t) \<noteq> ''## ''"
    by (simp add: section_entry_def)
  ultimately show ?thesis by (simp add: level2_headings_line)
qed

lemma level2_headings_lines:
  assumes "\<forall>l \<in> set ls. level2_headings l = []"
  shows "level2_headings (join nl ls) = []"
proof (cases ls)
  case Nil
  then show ?thesis by (simp add: level2_headings_Nil)
next
  case (Cons l ls')
  then have "level2_headings (join nl ls) = concat (map level2_headings ls)"
    by (simp add: level2_headings_join del: join.simps)
  then show ?thesis using assms by simp
qed

lemma level2_headings_toc:
  assumes "list_all newline_free ms"
  shows "level2_headings (join nl (toc_lines i ms)) = []"
proof (rule level2_headings_lines, rule ballI)
  fix l
  assume "l \<in> set (toc_lines i ms)"
  then obtain k m where km: "(k, m) \<in> set (enumerate i ms)" and l: "l \<in> set (module_lines k m)"
    by (auto simp: toc_lines_def)
  then have "m \<in> set ms" by (auto simp: in_set_enumerate_eq)
  then have nf: "newline_free m" using assms by (simp add: list_all_iff)
  from l consider "l = module_entry k (fst m)"
    | j t where "(j, t) \<in> set (enumerate 1 (titled_sections m))" "l = section_entry k j t"
    by (auto simp: module_lines_def)
  then show "level2_headings l = []"
  proof cases
    case 1
    then show ?thesis using nf by (simp add: newline_free_def level2_headings_module_entry)
  next
    case 2
    then have "t \<in> set (titled_sections m)" by (auto simp: in_set_enumerate_eq)
    then have "CHR 0x0A \<notin> set t" using nf by (simp add: newline_free_def list_all_iff)
    then show ?thesis using 2 by (simp add: level2_headings_section_entry)
  qed
qed

lemma toc_M: "generate_table_of_contents (map module_dict [(''M'', None)]) = Inr ''1. [M](#m)''"
proof -
  have l: "lower ''M'' = ''m''" by (simp add: lower_eval)
  show ?thesis
    by (simp add: generate_table_of_contents_def module_dict_def module_entry_def anchor_def
          replace_def l str_nat_small)
qed

lemma toc_a: "generate_table_of_contents (map module_dict [(''a'', None)]) = Inr ''1. [a](#a)''"
proof -
  have l: "lower ''a'' = ''a''" by (simp add: lower_eval)
  show ?thesis
    by (simp add: generate_table_of_contents_def module_dict_def module_entry_def anchor_def
          replace_def l str_nat_small)
qed

lemma strip_nested:
  "strip nested_description = nested_description" "strip nested_body = nested_body"
  by (simp_all add: strip_def nested_description_def nested_body_def is_space_def nl_def)

lemma same_document:
  "compose_course ''T'' nested_description ''1. [M](#m)'' [(''M'', ''y'', None)]
     = compose_course ''T'' ''d'' ''1. [a](#a)'' [(''a'', nested_body, None)]"
  by (simp add: compose_course_def COURSE_TEMPLATE_def MODULE_TEMPLATE_def
        nested_description_def nested_body_def)

lemma headings_of_same_document:
  "level2_headings (compose_course ''T'' ''d'' ''1. [a](#a)'' [(''a'', nested_body, None)])
     = [''Table of Contents'', ''a'', ''Table of Contents'', ''M'']"
  by (simp add: compose_course_def COURSE_TEMPLATE_def MODULE_TEMPLATE_def
        nested_body_def level2_headings_def nl_def)

text \<open>
  Two courses with one module each, titled "M" and "a", whose tables of contents are the
  generated ones and whose description and body are already stripped, are composed into
  the same document. No reading of the document can return both lists of module titles;
  its second-level headings are "Table of Contents", "a", "Table of Contents", "M".
\<close>

theorem heading_recovery_counterexample:
  "generate_table_of_contents (map module_dict [(''M'', None)]) = Inr ''1. [M](#m)''
   \<and> generate_table_of_contents (map module_dict [(''a'', None)]) = Inr ''1. [a](#a)''
   \<and> strip nested_description = nested_description \<and> strip nested_body = nested_body
   \<and> compose_course ''T'' nested_description ''1. [M](#m)'' [(''M'', ''y'', None)]
       = compose_course ''T'' ''d'' ''1. [a](#a)'' [(''a'', nested_body, None)]
   \<and> map fst [(''M'', ''y'', None :: string option)] \<noteq> map fst [(''a'', nested_body, None)]
   \<and> level2_headings (compose_course ''T'' ''d'' ''1. [a](#a)'' [(''a'', nested_body, None)])
       = [''Table of Contents'', ''a'', ''Table of Contents'', ''M'']"
  using toc_M toc_a strip_nested same_document headings_of_same_document by simp

text \<open>
  Claim C10, amended. When the course title and the titles of the modules and of their
  sections contain no newline, and no line of the description, of a body or of the code
  examples starts with \<open>## \<close>, the second-level headings of the composed document are the
  heading of the table of contents followed by the module titles in their original order.
\<close>

theorem module_titles_recovered:
  assumes "CHR 0x0A \<notin> set t"
    and "list_all newline_free ms"
    and "generate_table_of_contents (map module_dict ms) = Inr toc"
    and "map fst arts = map fst ms"
    and "level2_headings d = []"
    and "\<forall>a \<in> set arts. level2_headings (fst (snd a)) = []
           \<and> (\<forall>code. snd (snd a) = Some code \<longrightarrow> level2_headings code = [])"
  shows "level2_headings (compose_course t d toc arts) = ''Table of Contents'' # map fst arts"
proof -
  have "toc = join nl (toc_lines 1 ms)"
    using assms(3) by (simp add: generate_table_of_contents_def toc_modules_dict)
  then have toc: "level2_headings toc = []"
    using level2_headings_toc [OF assms(2)] by simp
  have "\<forall>x \<in> set (map fst ms). CHR 0x0A \<notin> set x"
    using assms(2) by (auto simp: list_all_iff newline_free_def)
  then have "\<forall>x \<in> set (map fst arts). CHR 0x0A \<notin> set x"
    using assms(4) by simp
  then have "\<forall>a \<in> set arts. CHR 0x0A \<notin> set (fst a) \<and> level2_headings (fst (snd a)) = []
             \<and> (\<forall>code. snd (snd a) = Some code \<longrightarrow> level2_headings code = [])"
    using assms(6) by auto
  then show ?thesis
    using assms(1,5) toc by (rule level2_headings_compose [rotated 3])
qed

theorem module_titles_recovered_witness:
  "level2_headings
     (compose_course ''Intro to Go'' ''about''
        (''1. [Basics](#basics)'' @ nl @ ''   1.1. [Vars](#vars)'' @ nl @ ''   1.2. [Loops](#loops)'')
        [(''Basics'', ''body'', Some ''code'')])
   = [''Table of Contents'', ''Basics'']"
proof -
  let ?ms = "[(''Basics'', Some [''Vars'', ''Loops''])]"
  let ?arts = "[(''Basics'', ''body'', Some ''code'')]"
  let ?toc = "''1. [Basics](#basics)'' @ nl @ ''   1.1. [Vars](#vars)'' @ nl
                @ ''   1.2. [Loops](#loops)''"
  have h1: "CHR 0x0A \<notin> set ''Intro to Go''" by simp
  have h2: "list_all newline_free ?ms" by (simp add: newline_free_def titled_sections_def)
  have l: "lower ''Basics'' = ''basics''" "lower ''Vars'' = ''vars''" "lower ''Loops'' = ''loops''"
    by (simp_all add: lower_eval)
  have "join nl (toc_lines 1 ?ms) = ?toc"
    by (simp add: toc_lines_def module_lines_def titled_sections_def module_entry_def
          section_entry_def anchor_def replace_def l str_nat_small)
  then have h3: "generate_table_of_contents (map module_dict ?ms) = Inr ?toc"
    unfolding generate_table_of_contents_def by (simp only: toc_modules_dict append_Nil sum.case)
  have h4: "map fst ?arts = map fst ?ms" by simp
  have h5: "level2_headings ''about'' = []" by (simp add: level2_headings_def)
  have h6: "\<forall>a \<in> set ?arts. level2_headings (fst (snd a)) = []
           \<and> (\<forall>code. snd (snd a) = Some code \<longrightarrow> level2_headings code = [])"
    by (simp add: level2_headings_def)
  show ?thesis using module_titles_recovered [OF h1 h2 h3 h4 h5 h6] by (simp only: list.map fst_conv)
qed

end
